theory Spec2Isabelle
  imports Main
begin

unbundle bit_operations_syntax

section \<open>The platform: control pins, serial bus, clock\<close>

text \<open>
  The driver \<^verbatim>\<open>ssd1309.py\<close> talks to three \<^verbatim>\<open>machine.Pin\<close> objects, one
  \<^verbatim>\<open>machine.SPI\<close> object and \<^verbatim>\<open>time.sleep_ms\<close>. None of them is part of the
  repository, so the model keeps what they are asked to do as a trace of events and
  takes their behaviour as a parameter of the state: the level of each pin, and for
  the bus a schedule saying which of the coming \<^verbatim>\<open>spi.write\<close> calls raise.
\<close>

datatype pin = DC | RST | CS

text \<open>
  A bus transfer is logged with the chip-select and data/command levels the controller
  sees while the bytes are clocked out, followed by the bytes.
\<close>

datatype event =
    PinInit pin int
  | PinValue pin int
  | SleepMs int
  | SpiWrite int int "int list"
  | SpiFault int int "int list"

datatype error = ValueError | TransportError

text \<open>
  One record holds the attributes of the \<^verbatim>\<open>SSD1309_SPI\<close> object (\<open>width\<close>,
  \<open>height\<close>, \<open>pages\<close>, \<open>buffer\<close>) and the state of the platform objects it refers
  to. A byte is an \<open>int\<close> between 0 and 255. In \<open>spi_faults\<close> the head is the outcome
  of the next \<^verbatim>\<open>spi.write\<close> (\<open>True\<close>: it raises); once the schedule is used up
  every write completes.
\<close>

record system =
  width :: int
  height :: int
  pages :: int
  buffer :: "int list"
  dc :: int
  rst :: int
  cs :: int
  spi_faults :: "bool list"
  events :: "event list"

type_synonym stmt = "system \<Rightarrow> error option \<times> system"

definition log :: "event \<Rightarrow> system \<Rightarrow> system" where
  "log e s = s\<lparr>events := events s @ [e]\<rparr>"

definition set_level :: "pin \<Rightarrow> int \<Rightarrow> system \<Rightarrow> system" where
  "set_level p v s = (case p of DC \<Rightarrow> s\<lparr>dc := v\<rparr> | RST \<Rightarrow> s\<lparr>rst := v\<rparr> | CS \<Rightarrow> s\<lparr>cs := v\<rparr>)"

text \<open>\<^verbatim>\<open>pin.init(pin.OUT, value=v)\<close> and \<^verbatim>\<open>pin.value(v)\<close>.\<close>

definition pin_init :: "pin \<Rightarrow> int \<Rightarrow> system \<Rightarrow> system" where
  "pin_init p v s = log (PinInit p v) (set_level p v s)"

definition pin_value :: "pin \<Rightarrow> int \<Rightarrow> system \<Rightarrow> system" where
  "pin_value p v s = log (PinValue p v) (set_level p v s)"

text \<open>\<^verbatim>\<open>time.sleep_ms(n)\<close>: the requested delay is logged.\<close>

definition sleep_ms :: "int \<Rightarrow> system \<Rightarrow> system" where
  "sleep_ms n s = log (SleepMs n) s"

text \<open>\<^verbatim>\<open>spi.write(b)\<close>: completes or raises, as the schedule says.\<close>

definition spi_write :: "int list \<Rightarrow> stmt" where
  "spi_write b s =
     (case spi_faults s of
        [] \<Rightarrow> (None, log (SpiWrite (cs s) (dc s) b) s)
      | f # fs \<Rightarrow>
          if f then (Some TransportError, log (SpiFault (cs s) (dc s) b) (s\<lparr>spi_faults := fs\<rparr>))
          else (None, log (SpiWrite (cs s) (dc s) b) (s\<lparr>spi_faults := fs\<rparr>)))"

text \<open>
  \<^verbatim>\<open>bytes([...])\<close> raises \<^verbatim>\<open>ValueError\<close> on an element outside \<^verbatim>\<open>range(256)\<close>;
  \<^verbatim>\<open>bytearray(n)\<close> is \<open>n\<close> zero bytes and raises on a negative \<open>n\<close>.
\<close>

definition is_byte :: "int \<Rightarrow> bool" where
  "is_byte x = (0 \<le> x \<and> x \<le> 255)"

definition bytes_of :: "int list \<Rightarrow> error + int list" where
  "bytes_of xs = (if list_all is_byte xs then Inr xs else Inl ValueError)"

definition bytearray :: "int \<Rightarrow> error + int list" where
  "bytearray n = (if n < 0 then Inl ValueError else Inr (replicate (nat n) 0))"

section \<open>Statements and exceptions\<close>

text \<open>
  A statement maps the state to the state it leaves and to the exception it raised, if
  any. \<open>stmt_ok\<close> is a statement that cannot raise; \<open>block\<close> runs statements in order
  and stops at the first one that raises, keeping the state reached there.
\<close>

definition stmt_ok :: "(system \<Rightarrow> system) \<Rightarrow> stmt" where
  "stmt_ok f s = (None, f s)"

fun block :: "stmt list \<Rightarrow> stmt" where
  "block [] s = (None, s)"
| "block (f # fs) s =
     (case f s of
        (None, s') \<Rightarrow> block fs s'
      | (Some e, s') \<Rightarrow> (Some e, s'))"

section \<open>Command definitions (\<^verbatim>\<open>ssd1309.py\<close>, lines 104 to 150)\<close>

abbreviation (input) DISPLAY_OFF :: int where "DISPLAY_OFF \<equiv> 0xAE"
abbreviation (input) DISPLAY_ON :: int where "DISPLAY_ON \<equiv> 0xAF"
abbreviation (input) SET_DISPLAY_ALL_ON_RESUME :: int where "SET_DISPLAY_ALL_ON_RESUME \<equiv> 0xA4"
abbreviation (input) SET_NORMAL_DISPLAY :: int where "SET_NORMAL_DISPLAY \<equiv> 0xA6"
abbreviation (input) SET_INVERTED_DISPLAY :: int where "SET_INVERTED_DISPLAY \<equiv> 0xA7"
abbreviation (input) DEACTIVATE_SCROLL :: int where "DEACTIVATE_SCROLL \<equiv> 0x2E"
abbreviation (input) SET_MEMORY_MODE :: int where "SET_MEMORY_MODE \<equiv> 0x20"
abbreviation (input) SET_COLUMN_ADDR :: int where "SET_COLUMN_ADDR \<equiv> 0x21"
abbreviation (input) SET_PAGE_ADDR :: int where "SET_PAGE_ADDR \<equiv> 0x22"
abbreviation (input) SET_START_LINE :: int where "SET_START_LINE \<equiv> 0x40"
abbreviation (input) SET_SEG_REMAP_INV :: int where "SET_SEG_REMAP_INV \<equiv> 0xA1"
abbreviation (input) SET_MULTIPLEX_RATIO :: int where "SET_MULTIPLEX_RATIO \<equiv> 0xA8"
abbreviation (input) SET_COM_SCAN_DEC :: int where "SET_COM_SCAN_DEC \<equiv> 0xC8"
abbreviation (input) SET_DISPLAY_OFFSET :: int where "SET_DISPLAY_OFFSET \<equiv> 0xD3"
abbreviation (input) SET_COM_PINS :: int where "SET_COM_PINS \<equiv> 0xDA"
abbreviation (input) SET_CLOCK_DIV :: int where "SET_CLOCK_DIV \<equiv> 0xD5"
abbreviation (input) SET_PRECHARGE :: int where "SET_PRECHARGE \<equiv> 0xD9"
abbreviation (input) SET_VCOMH_DESELECT :: int where "SET_VCOMH_DESELECT \<equiv> 0xDB"
abbreviation (input) SET_CONTRAST :: int where "SET_CONTRAST \<equiv> 0x81"
abbreviation (input) SET_COMMAND_LOCK :: int where "SET_COMMAND_LOCK \<equiv> 0xFD"
abbreviation (input) ADDR_MODE_HORIZONTAL :: int where "ADDR_MODE_HORIZONTAL \<equiv> 0x00"
abbreviation (input) DEFAULT_CONTRAST :: int where "DEFAULT_CONTRAST \<equiv> 0xCF"
abbreviation (input) DEFAULT_PRECHARGE :: int where "DEFAULT_PRECHARGE \<equiv> 0xF1"
abbreviation (input) DEFAULT_VCOMH :: int where "DEFAULT_VCOMH \<equiv> 0x30"
abbreviation (input) DEFAULT_CLOCK_DIV :: int where "DEFAULT_CLOCK_DIV \<equiv> 0x80"
abbreviation (input) DEFAULT_COM_PINS :: int where "DEFAULT_COM_PINS \<equiv> 0x12"

section \<open>The driver (\<^verbatim>\<open>class SSD1309_SPI\<close>)\<close>

text \<open>\<^verbatim>\<open>reset\<close>, lines 234 to 253.\<close>

definition reset :: stmt where
  "reset = block [
     stmt_ok (pin_value RST 1),
     stmt_ok (sleep_ms 1),
     stmt_ok (pin_value RST 0),
     stmt_ok (sleep_ms 10),
     stmt_ok (pin_value RST 1),
     stmt_ok (sleep_ms 10)]"

text \<open>
  \<^verbatim>\<open>write_cmd\<close>, lines 255 to 267, and \<^verbatim>\<open>write_data\<close>, lines 269 to 283. There is
  no \<^verbatim>\<open>try\<close>: when building the byte string or the bus write raises, the last
  statement is not reached.
\<close>

definition write_cmd :: "int \<Rightarrow> stmt" where
  "write_cmd cmd = block [
     stmt_ok (pin_value CS 0),
     stmt_ok (pin_value DC 0),
     (\<lambda>s. case bytes_of [cmd] of Inl e \<Rightarrow> (Some e, s) | Inr b \<Rightarrow> spi_write b s),
     stmt_ok (pin_value CS 1)]"

definition write_data :: "int list \<Rightarrow> stmt" where
  "write_data buf = block [
     stmt_ok (pin_value CS 0),
     stmt_ok (pin_value DC 1),
     spi_write buf,
     stmt_ok (pin_value CS 1)]"

text \<open>\<^verbatim>\<open>init_display\<close>, lines 285 to 372.\<close>

definition init_display :: stmt where
  "init_display = block [
     write_cmd SET_COMMAND_LOCK,
     write_cmd 0x12,
     write_cmd DISPLAY_OFF,
     write_cmd SET_CLOCK_DIV,
     write_cmd DEFAULT_CLOCK_DIV,
     write_cmd SET_MULTIPLEX_RATIO,
     (\<lambda>s. write_cmd (height s - 1) s),
     write_cmd SET_DISPLAY_OFFSET,
     write_cmd 0x00,
     write_cmd (SET_START_LINE OR 0x00),
     write_cmd SET_MEMORY_MODE,
     write_cmd ADDR_MODE_HORIZONTAL,
     write_cmd SET_SEG_REMAP_INV,
     write_cmd SET_COM_SCAN_DEC,
     write_cmd SET_COM_PINS,
     write_cmd DEFAULT_COM_PINS,
     write_cmd SET_CONTRAST,
     write_cmd DEFAULT_CONTRAST,
     write_cmd SET_PRECHARGE,
     write_cmd DEFAULT_PRECHARGE,
     write_cmd SET_VCOMH_DESELECT,
     write_cmd DEFAULT_VCOMH,
     write_cmd SET_DISPLAY_ALL_ON_RESUME,
     write_cmd SET_NORMAL_DISPLAY,
     write_cmd DEACTIVATE_SCROLL,
     write_cmd DISPLAY_ON]"

text \<open>
  \<^verbatim>\<open>__init__\<close>, lines 172 to 232, called as \<^verbatim>\<open>SSD1309_SPI(width, height, spi, dc, rst, cs)\<close>.
  The attributes of the new object are written before they are read, so whatever the
  record holds in them on entry is not used. \<^verbatim>\<open>framebuf.FrameBuffer.__init__\<close> keeps a
  reference to the buffer and touches neither the pins nor the bus.
\<close>

definition SSD1309_SPI :: "int \<Rightarrow> int \<Rightarrow> stmt" where
  "SSD1309_SPI w h s =
     (if w \<noteq> 128 \<or> \<not> (h = 32 \<or> h = 64) then (Some ValueError, s)
      else block [
        stmt_ok (\<lambda>s. s\<lparr>width := w\<rparr>),
        stmt_ok (\<lambda>s. s\<lparr>height := h\<rparr>),
        stmt_ok (pin_init DC 0),
        stmt_ok (pin_init RST 1),
        stmt_ok (pin_init CS 1),
        stmt_ok (\<lambda>s. s\<lparr>pages := h div 8\<rparr>),
        (\<lambda>s. case bytearray (w * pages s) of
                Inl e \<Rightarrow> (Some e, s)
              | Inr b \<Rightarrow> (None, s\<lparr>buffer := b\<rparr>)),
        reset,
        init_display] s)"

text \<open>\<^verbatim>\<open>show\<close>, lines 374 to 402.\<close>

definition "show" :: stmt where
  "show = block [
     write_cmd SET_COLUMN_ADDR,
     write_cmd 0x00,
     (\<lambda>s. write_cmd (width s - 1) s),
     write_cmd SET_PAGE_ADDR,
     write_cmd 0x00,
     (\<lambda>s. write_cmd (pages s - 1) s),
     (\<lambda>s. write_data (buffer s) s)]"

text \<open>\<^verbatim>\<open>contrast\<close>, lines 404 to 419.\<close>

definition contrast :: "int \<Rightarrow> stmt" where
  "contrast v =
     (let v = max 0 (min 255 v) in
      block [write_cmd SET_CONTRAST, write_cmd v])"

text \<open>\<^verbatim>\<open>invert\<close>, lines 421 to 432.\<close>

definition invert :: "bool \<Rightarrow> stmt" where
  "invert flag = (if flag then write_cmd SET_INVERTED_DISPLAY else write_cmd SET_NORMAL_DISPLAY)"

text \<open>\<^verbatim>\<open>poweroff\<close>, lines 434 to 443, and \<^verbatim>\<open>poweron\<close>, lines 445 to 452.\<close>

definition poweroff :: stmt where
  "poweroff = write_cmd DISPLAY_OFF"

definition poweron :: stmt where
  "poweron = write_cmd DISPLAY_ON"

section \<open>Callers\<close>

text \<open>
  The public methods of a constructed display that reach the bus, as application code
  such as \<^verbatim>\<open>main.py\<close> calls them. A script is a list of calls run as a block, so
  that an exception ends it.
\<close>

datatype call = Show | Contrast int | Invert bool | Poweroff | Poweron

fun run_call :: "call \<Rightarrow> stmt" where
  "run_call Show = show"
| "run_call (Contrast v) = contrast v"
| "run_call (Invert flag) = invert flag"
| "run_call Poweroff = poweroff"
| "run_call Poweron = poweron"

section \<open>Observations on states and traces\<close>

text \<open>
  \<open>transport_ok n s\<close>: none of the next \<open>n\<close> bus writes raises. \<open>fault_free s\<close>: no
  bus write raises from now on.
\<close>

definition quiet :: "nat \<Rightarrow> bool list \<Rightarrow> bool" where
  "quiet n fs = list_all (\<lambda>f. \<not> f) (take n fs)"

definition transport_ok :: "nat \<Rightarrow> system \<Rightarrow> bool" where
  "transport_ok n s = quiet n (spi_faults s)"

definition fault_free :: "system \<Rightarrow> bool" where
  "fault_free s = list_all (\<lambda>f. \<not> f) (spi_faults s)"

text \<open>
  The attributes of a display object after \<^verbatim>\<open>__init__\<close> has returned: the geometry
  test of line 198 passed, \<open>pages\<close> and \<open>buffer\<close> are as lines 219 and 223 made them,
  and the buffer, a \<^verbatim>\<open>bytearray\<close> that drawing code changes in place, holds bytes.
\<close>

definition constructed :: "system \<Rightarrow> bool" where
  "constructed s =
     (width s = 128 \<and> (height s = 32 \<or> height s = 64) \<and> pages s = height s div 8 \<and>
      int (length (buffer s)) = width s * pages s \<and> list_all is_byte (buffer s))"

definition attrs :: "system \<Rightarrow> int \<times> int \<times> int \<times> int list" where
  "attrs s = (width s, height s, pages s, buffer s)"

text \<open>The trace of one completed command-mode write of the byte \<open>b\<close>.\<close>

definition cmd_frame :: "int \<Rightarrow> event list" where
  "cmd_frame b = [PinValue CS 0, PinValue DC 0, SpiWrite 0 0 [b], PinValue CS 1]"

text \<open>The bytes that \<^verbatim>\<open>init_display\<close> sends for a display of height \<open>h\<close>, in order.\<close>

definition init_sequence :: "int \<Rightarrow> int list" where
  "init_sequence h =
     [0xFD, 0x12, 0xAE, 0xD5, 0x80, 0xA8, h - 1, 0xD3, 0x00, 0x40, 0x20, 0x00,
      0xA1, 0xC8, 0xDA, 0x12, 0x81, 0xCF, 0xD9, 0xF1, 0xDB, 0x30, 0xA4, 0xA6, 0x2E, 0xAF]"

text \<open>
  The command stream of a trace: the bytes of the completed transfers made with the
  chip selected and the data/command line at 0, in order.
\<close>

fun cmd_stream :: "event list \<Rightarrow> int list" where
  "cmd_stream [] = []"
| "cmd_stream (SpiWrite c d bs # es) =
     (if c = 0 \<and> d = 0 then bs @ cmd_stream es else cmd_stream es)"
| "cmd_stream (e # es) = cmd_stream es"

text \<open>
  The controller reads a command stream as opcodes, each followed by its parameter
  bytes. \<open>param_count\<close> is the number of parameter bytes after each opcode the driver
  uses: one for the commands that \<^verbatim>\<open>init_display\<close> and \<^verbatim>\<open>contrast\<close> send as an
  opcode and a value, two for the column and page address commands of \<^verbatim>\<open>show\<close>
  (start, end), none for the others; section 4.3 of the specification has the same
  table. \<open>opcodes\<close> are the bytes of a stream read as opcodes; \<open>whole\<close> says that
  the stream ends with a complete command.
\<close>

definition param_count :: "int \<Rightarrow> nat" where
  "param_count opc =
     (if opc \<in> set [0xFD, 0xD5, 0xA8, 0xD3, 0x20, 0xDA, 0x81, 0xD9, 0xDB] then 1
      else if opc \<in> set [0x21, 0x22] then 2 else 0)"

fun opcodes :: "int list \<Rightarrow> int list" where
  "opcodes [] = []"
| "opcodes (opc # bs) = opc # opcodes (drop (param_count opc) bs)"

fun whole :: "int list \<Rightarrow> bool" where
  "whole [] = True"
| "whole (opc # bs) = (param_count opc \<le> length bs \<and> whole (drop (param_count opc) bs))"

text \<open>
  Concrete states: the platform before any display object exists, a 128x32 display
  with every pixel set, and the same display on a bus whose next write raises.
\<close>

definition power_up :: system where
  "power_up = \<lparr>width = 0, height = 0, pages = 0, buffer = [], dc = 0, rst = 0, cs = 0,
     spi_faults = [], events = []\<rparr>"

definition ready :: system where
  "ready = \<lparr>width = 128, height = 32, pages = 4, buffer = replicate 512 0xFF, dc = 0,
     rst = 1, cs = 1, spi_faults = [], events = []\<rparr>"

definition bus_down :: system where
  "bus_down = \<lparr>width = 128, height = 32, pages = 4, buffer = replicate 512 0xFF, dc = 0,
     rst = 1, cs = 1, spi_faults = [True], events = []\<rparr>"

section \<open>What each operation does when the bus works\<close>

lemma quiet_drop:
  assumes "quiet n fs" "k < n"
  shows "quiet (Suc 0) (drop k fs)"
proof (cases "k < length fs")
  case True
  have "drop k fs = fs ! k # drop (Suc k) fs"
    using True by (simp add: Cons_nth_drop_Suc)
  moreover have "fs ! k \<in> set (take n fs)"
    using True assms(2) by (auto simp: in_set_conv_nth intro!: exI [of _ k])
  ultimately show ?thesis
    using assms(1) by (auto simp: quiet_def list_all_iff)
next
  case False
  then show ?thesis by (simp add: quiet_def)
qed

lemma spi_write_step:
  "quiet (Suc 0) (spi_faults s) \<Longrightarrow>
   spi_write b s = (None, s\<lparr>spi_faults := drop 1 (spi_faults s),
                              events := events s @ [SpiWrite (cs s) (dc s) b]\<rparr>)"
  by (cases "spi_faults s") (auto simp: spi_write_def quiet_def log_def)

lemma write_cmd_step:
  "is_byte c \<Longrightarrow> quiet (Suc 0) (spi_faults s) \<Longrightarrow>
   write_cmd c s = (None, s\<lparr>dc := 0, cs := 1, spi_faults := drop 1 (spi_faults s),
       events := events s @ [PinValue CS 0, PinValue DC 0, SpiWrite 0 0 [c], PinValue CS 1]\<rparr>)"
  by (simp add: write_cmd_def stmt_ok_def pin_value_def set_level_def log_def bytes_of_def
      spi_write_step)

lemma write_data_step:
  "quiet (Suc 0) (spi_faults s) \<Longrightarrow>
   write_data buf s = (None, s\<lparr>dc := 1, cs := 1, spi_faults := drop 1 (spi_faults s),
       events := events s @ [PinValue CS 0, PinValue DC 1, SpiWrite 0 1 buf, PinValue CS 1]\<rparr>)"
  by (simp add: write_data_def stmt_ok_def pin_value_def set_level_def log_def spi_write_step)

lemma show_effect:
  assumes "constructed s" "transport_ok 7 s"
  shows "show s = (None, s\<lparr>dc := 1, cs := 1, spi_faults := drop 7 (spi_faults s),
      events := events s @ cmd_frame 0x21 @ cmd_frame 0x00 @ cmd_frame (width s - 1) @
        cmd_frame 0x22 @ cmd_frame 0x00 @ cmd_frame (pages s - 1) @
        [PinValue CS 0, PinValue DC 1, SpiWrite 0 1 (buffer s), PinValue CS 1]\<rparr>)"
proof -
  have q: "\<And>k. k < 7 \<Longrightarrow> quiet (Suc 0) (drop k (spi_faults s))"
    using assms(2) quiet_drop unfolding transport_ok_def by blast
  have q0: "quiet (Suc 0) (spi_faults s)"
    using q [of 0] by simp
  have b: "is_byte (width s - 1)" "is_byte (pages s - 1)"
    using assms(1) by (auto simp: constructed_def is_byte_def)
  show ?thesis
    unfolding show_def using b
    apply (simp add: write_cmd_step write_data_step q q0 is_byte_def cmd_frame_def)
    apply (simp add: eval_nat_numeral)
    done
qed

lemma init_display_effect:
  assumes "is_byte (height s - 1)" "transport_ok 26 s"
  shows "init_display s = (None, s\<lparr>dc := 0, cs := 1, spi_faults := drop 26 (spi_faults s),
      events := events s @ concat (map cmd_frame
        [0xFD, 0x12, 0xAE, 0xD5, 0x80, 0xA8, height s - 1, 0xD3, 0x00, 0x40, 0x20, 0x00,
         0xA1, 0xC8, 0xDA, 0x12, 0x81, 0xCF, 0xD9, 0xF1, 0xDB, 0x30, 0xA4, 0xA6, 0x2E, 0xAF])\<rparr>)"
proof -
  have q: "\<And>k. k < 26 \<Longrightarrow> quiet (Suc 0) (drop k (spi_faults s))"
    using assms(2) quiet_drop unfolding transport_ok_def by blast
  have q0: "quiet (Suc 0) (spi_faults s)"
    using q [of 0] by simp
  show ?thesis
    unfolding init_display_def using assms(1)
    apply (simp add: write_cmd_step q q0 is_byte_def cmd_frame_def)
    apply (simp add: eval_nat_numeral)
    done
qed

lemma block_last:
  "(case r of (None, s') \<Rightarrow> block [] s' | (Some e, s') \<Rightarrow> (Some e, s')) = r"
  by (cases r; cases "fst r") auto

lemma reset_effect:
  "reset s = (None, s\<lparr>rst := 1, events := events s @
     [PinValue RST 1, SleepMs 1, PinValue RST 0, SleepMs 10, PinValue RST 1, SleepMs 10]\<rparr>)"
  by (simp add: reset_def stmt_ok_def pin_value_def sleep_ms_def set_level_def log_def)

lemma construct_effect:
  assumes "w = 128" "h = 32 \<or> h = 64" "transport_ok 26 s"
  shows "SSD1309_SPI w h s = (None, s\<lparr>width := w, height := h, pages := h div 8,
      buffer := replicate (nat (w * (h div 8))) 0, dc := 0, rst := 1, cs := 1,
      spi_faults := drop 26 (spi_faults s),
      events := events s @ [PinInit DC 0, PinInit RST 1, PinInit CS 1,
        PinValue RST 1, SleepMs 1, PinValue RST 0, SleepMs 10, PinValue RST 1, SleepMs 10] @
        concat (map cmd_frame (init_sequence h))\<rparr>)"
proof -
  define s1 where "s1 = s\<lparr>width := w, height := h, pages := h div 8,
      buffer := replicate (nat (w * (h div 8))) 0, dc := 0, rst := 1, cs := 1,
      events := events s @ [PinInit DC 0, PinInit RST 1, PinInit CS 1,
        PinValue RST 1, SleepMs 1, PinValue RST 0, SleepMs 10, PinValue RST 1, SleepMs 10]\<rparr>"
  have b: "is_byte (height s1 - 1)"
    using assms(2) by (auto simp: s1_def is_byte_def)
  have t: "transport_ok 26 s1"
    using assms(3) by (simp add: s1_def transport_ok_def)
  have "SSD1309_SPI w h s = init_display s1"
    using assms(1,2)
    by (cases s)
      (auto simp: SSD1309_SPI_def stmt_ok_def pin_init_def set_level_def log_def
        bytearray_def reset_effect s1_def block_last)
  also have "\<dots> = (None, s1\<lparr>dc := 0, cs := 1, spi_faults := drop 26 (spi_faults s1),
      events := events s1 @ concat (map cmd_frame (init_sequence (height s1)))\<rparr>)"
    using init_display_effect [OF b t] by (simp add: init_sequence_def)
  finally show ?thesis
    by (cases s) (simp add: s1_def)
qed

lemma fault_free_ok: "fault_free s \<Longrightarrow> transport_ok n s"
  by (auto simp: fault_free_def transport_ok_def quiet_def list_all_iff dest: in_set_takeD)

lemma fault_free_drop:
  "fault_free s \<Longrightarrow> spi_faults s' = drop n (spi_faults s) \<Longrightarrow> fault_free s'"
  by (auto simp: fault_free_def list_all_iff dest: in_set_dropD)

lemma cmd_stream_append: "cmd_stream (a @ b) = cmd_stream a @ cmd_stream b"
  by (induction a rule: cmd_stream.induct) auto

lemma cmd_stream_frame: "cmd_stream (cmd_frame b) = [b]"
  by (simp add: cmd_frame_def)

lemma cmd_stream_frames: "cmd_stream (concat (map cmd_frame bs)) = bs"
  by (induction bs) (simp_all add: cmd_stream_append cmd_stream_frame)

lemma opcodes_append: "whole a \<Longrightarrow> opcodes (a @ b) = opcodes a @ opcodes b"
  by (induction a rule: opcodes.induct) auto

lemma whole_append: "whole a \<Longrightarrow> whole b \<Longrightarrow> whole (a @ b)"
  by (induction a rule: whole.induct) auto

lemma contrast_effect:
  assumes "transport_ok 2 s"
  shows "contrast v s = (None, s\<lparr>dc := 0, cs := 1, spi_faults := drop 2 (spi_faults s),
      events := events s @ cmd_frame 0x81 @ cmd_frame (max 0 (min 255 v))\<rparr>)"
proof -
  have q: "\<And>k. k < 2 \<Longrightarrow> quiet (Suc 0) (drop k (spi_faults s))"
    using assms quiet_drop unfolding transport_ok_def by blast
  have q0: "quiet (Suc 0) (spi_faults s)"
    using q [of 0] by simp
  have b: "is_byte (max 0 (min 255 v))"
    by (simp add: is_byte_def)
  show ?thesis
    unfolding contrast_def Let_def using b
    apply (simp add: write_cmd_step q q0 is_byte_def cmd_frame_def)
    apply (simp add: eval_nat_numeral)
    done
qed

lemma write_cmd_effect:
  assumes "is_byte c" "transport_ok 1 s"
  shows "write_cmd c s = (None, s\<lparr>dc := 0, cs := 1, spi_faults := drop 1 (spi_faults s),
      events := events s @ cmd_frame c\<rparr>)"
  using assms by (simp add: write_cmd_step transport_ok_def cmd_frame_def)

lemma block_attrs:
  assumes "\<And>f s. f \<in> set fs \<Longrightarrow> attrs (snd (f s)) = attrs s"
  shows "attrs (snd (block fs s)) = attrs s"
  using assms
proof (induction fs arbitrary: s)
  case Nil
  then show ?case by simp
next
  case (Cons f fs)
  have step: "attrs (snd (f s)) = attrs s"
    using Cons.prems by simp
  show ?case
  proof (cases "f s")
    case (Pair r s')
    then show ?thesis
      using step Cons.IH [of s'] Cons.prems by (cases r) auto
  qed
qed

lemma spi_write_attrs: "attrs (snd (spi_write b s)) = attrs s"
  by (auto simp: spi_write_def attrs_def log_def split: list.splits)

lemma pin_value_attrs: "attrs (snd (stmt_ok (pin_value p v) s)) = attrs s"
  by (cases p) (simp_all add: stmt_ok_def pin_value_def set_level_def log_def attrs_def)

lemma write_cmd_attrs: "attrs (snd (write_cmd c s)) = attrs s"
  unfolding write_cmd_def
  by (rule block_attrs) (auto simp: pin_value_attrs spi_write_attrs split: sum.splits)

lemma write_data_attrs: "attrs (snd (write_data b s)) = attrs s"
  unfolding write_data_def
  by (rule block_attrs) (auto simp: pin_value_attrs spi_write_attrs)

lemma show_attrs: "attrs (snd (show s)) = attrs s"
  unfolding show_def
  by (rule block_attrs) (auto simp: write_cmd_attrs write_data_attrs)

lemma contrast_attrs: "attrs (snd (contrast v s)) = attrs s"
  unfolding contrast_def Let_def
  by (rule block_attrs) (auto simp: write_cmd_attrs)

lemma call_step:
  assumes "constructed s" "fault_free s"
  shows "\<exists>s' es. run_call c s = (None, s') \<and> constructed s' \<and> fault_free s' \<and>
           events s' = events s @ es \<and> whole (cmd_stream es) \<and>
           0x8D \<notin> set (opcodes (cmd_stream es))"
proof (cases c)
  case Show
  have g: "width s - 1 = 127" "pages s - 1 = 3 \<or> pages s - 1 = 7"
    using assms(1) by (auto simp: constructed_def)
  show ?thesis
    using show_effect [OF assms(1) fault_free_ok [OF assms(2)]] assms g
    by (auto simp: Show constructed_def cmd_stream_append cmd_stream_frame param_count_def
        intro: fault_free_drop)
next
  case (Contrast v)
  show ?thesis
    using contrast_effect [OF fault_free_ok [OF assms(2)], of v] assms
    by (auto simp: Contrast constructed_def cmd_stream_append cmd_stream_frame param_count_def
        intro: fault_free_drop)
next
  case (Invert flag)
  show ?thesis
    using write_cmd_effect [of "0xA7" s] fault_free_ok [OF assms(2), of 1]
      write_cmd_effect [of "0xA6" s] fault_free_ok [OF assms(2), of 1] assms
    by (auto simp: Invert invert_def is_byte_def constructed_def cmd_stream_frame param_count_def
        intro: fault_free_drop)
next
  case Poweroff
  show ?thesis
    using write_cmd_effect [of "0xAE" s] fault_free_ok [OF assms(2), of 1] assms
    by (auto simp: Poweroff poweroff_def is_byte_def constructed_def cmd_stream_frame
        param_count_def intro: fault_free_drop)
next
  case Poweron
  show ?thesis
    using write_cmd_effect [of "0xAF" s] fault_free_ok [OF assms(2), of 1] assms
    by (auto simp: Poweron poweron_def is_byte_def constructed_def cmd_stream_frame
        param_count_def intro: fault_free_drop)
qed

lemma calls_opcodes:
  assumes "constructed s" "fault_free s"
  shows "\<exists>s' es. block (map run_call xs) s = (None, s') \<and> events s' = events s @ es \<and>
           whole (cmd_stream es) \<and> 0x8D \<notin> set (opcodes (cmd_stream es))"
  using assms
proof (induction xs arbitrary: s)
  case Nil
  then show ?case by simp
next
  case (Cons c xs)
  obtain s1 es1 where 1: "run_call c s = (None, s1)" "constructed s1" "fault_free s1"
      "events s1 = events s @ es1" "whole (cmd_stream es1)"
      "0x8D \<notin> set (opcodes (cmd_stream es1))"
    using call_step [OF Cons.prems] by blast
  obtain s2 es2 where 2: "block (map run_call xs) s1 = (None, s2)"
      "events s2 = events s1 @ es2" "whole (cmd_stream es2)"
      "0x8D \<notin> set (opcodes (cmd_stream es2))"
    using Cons.IH [OF 1(2,3)] by blast
  have "block (map run_call (c # xs)) s = (None, s2)"
    using 1(1) 2(1) by simp
  moreover have "events s2 = events s @ (es1 @ es2)"
    using 1(4) 2(2) by simp
  moreover have "whole (cmd_stream (es1 @ es2))"
    using 1(5) 2(3) by (simp add: cmd_stream_append whole_append)
  moreover have "0x8D \<notin> set (opcodes (cmd_stream (es1 @ es2)))"
    using 1(5,6) 2(4) by (simp add: cmd_stream_append opcodes_append)
  ultimately show ?case by blast
qed

section \<open>The claims\<close>

lemma ready_constructed: "constructed ready"
  by (simp add: ready_def constructed_def is_byte_def list_all_iff)

lemma ready_ok: "transport_ok n ready"
  by (simp add: ready_def transport_ok_def quiet_def)

lemma power_up_ok: "transport_ok n power_up"
  by (simp add: power_up_def transport_ok_def quiet_def)

text \<open>
  C1. On a constructed display of width \<open>W\<close> and \<open>P\<close> pages, whatever happened before,
  a call of \<^verbatim>\<open>show\<close> during which the bus works returns normally and adds to the trace
  exactly six command-mode writes of one byte each, \<open>0x21\<close>, \<open>0x00\<close>, \<open>W - 1\<close>, \<open>0x22\<close>,
  \<open>0x00\<close>, \<open>P - 1\<close>, and then one data-mode write of the whole buffer, which has
  \<open>W * P\<close> bytes.
\<close>

theorem show_byte_stream:
  assumes "constructed s" and "transport_ok 7 s"
  shows "fst (show s) = None \<and>
    events (snd (show s)) = events s @
      [PinValue CS 0, PinValue DC 0, SpiWrite 0 0 [0x21], PinValue CS 1,
       PinValue CS 0, PinValue DC 0, SpiWrite 0 0 [0x00], PinValue CS 1,
       PinValue CS 0, PinValue DC 0, SpiWrite 0 0 [width s - 1], PinValue CS 1,
       PinValue CS 0, PinValue DC 0, SpiWrite 0 0 [0x22], PinValue CS 1,
       PinValue CS 0, PinValue DC 0, SpiWrite 0 0 [0x00], PinValue CS 1,
       PinValue CS 0, PinValue DC 0, SpiWrite 0 0 [pages s - 1], PinValue CS 1,
       PinValue CS 0, PinValue DC 1, SpiWrite 0 1 (buffer s), PinValue CS 1] \<and>
    int (length (buffer s)) = width s * pages s"
  using show_effect [OF assms] assms(1) by (simp add: cmd_frame_def constructed_def)

theorem show_byte_stream_witness:
  "constructed ready \<and> transport_ok 7 ready \<and> fst (show ready) = None \<and>
   events (snd (show ready)) =
      [PinValue CS 0, PinValue DC 0, SpiWrite 0 0 [0x21], PinValue CS 1,
       PinValue CS 0, PinValue DC 0, SpiWrite 0 0 [0x00], PinValue CS 1,
       PinValue CS 0, PinValue DC 0, SpiWrite 0 0 [127], PinValue CS 1,
       PinValue CS 0, PinValue DC 0, SpiWrite 0 0 [0x22], PinValue CS 1,
       PinValue CS 0, PinValue DC 0, SpiWrite 0 0 [0x00], PinValue CS 1,
       PinValue CS 0, PinValue DC 0, SpiWrite 0 0 [3], PinValue CS 1,
       PinValue CS 0, PinValue DC 1, SpiWrite 0 1 (replicate 512 0xFF), PinValue CS 1]"
  using show_byte_stream [OF ready_constructed ready_ok] ready_constructed ready_ok [of 7]
  by (simp add: ready_def)

text \<open>
  C2. For a supported geometry and a working bus, construction sends the initialization
  sequence as 26 command-mode writes of one byte each, after the pin set-up and the
  reset pulse: first the unlock pair \<open>0xFD\<close>, \<open>0x12\<close>, last display-on \<open>0xAF\<close>, and
  between them display off, clock divide, multiplex ratio \<open>height - 1\<close>, display
  offset 0, start line 0, horizontal addressing, segment remap, COM scan direction, COM
  pins, contrast, precharge, VCOMH, resume from RAM, normal display, deactivate scroll.
\<close>

theorem init_sequence_order:
  assumes "w = 128" and "h = 32 \<or> h = 64" and "transport_ok 26 s"
  shows "fst (SSD1309_SPI w h s) = None \<and>
    events (snd (SSD1309_SPI w h s)) = events s @
      [PinInit DC 0, PinInit RST 1, PinInit CS 1,
       PinValue RST 1, SleepMs 1, PinValue RST 0, SleepMs 10, PinValue RST 1, SleepMs 10] @
      concat (map cmd_frame
        [0xFD, 0x12, 0xAE, 0xD5, 0x80, 0xA8, h - 1, 0xD3, 0x00, 0x40, 0x20, 0x00,
         0xA1, 0xC8, 0xDA, 0x12, 0x81, 0xCF, 0xD9, 0xF1, 0xDB, 0x30, 0xA4, 0xA6, 0x2E, 0xAF])"
  using construct_effect [OF assms] by (simp add: init_sequence_def)

theorem init_sequence_order_witness:
  "transport_ok 26 power_up \<and> fst (SSD1309_SPI 128 64 power_up) = None \<and>
   cmd_stream (events (snd (SSD1309_SPI 128 64 power_up))) =
     [0xFD, 0x12, 0xAE, 0xD5, 0x80, 0xA8, 0x3F, 0xD3, 0x00, 0x40, 0x20, 0x00,
      0xA1, 0xC8, 0xDA, 0x12, 0x81, 0xCF, 0xD9, 0xF1, 0xDB, 0x30, 0xA4, 0xA6, 0x2E, 0xAF]"
  using init_sequence_order [of 128 64 power_up] power_up_ok [of 26]
  by (simp add: power_up_def cmd_frame_def)

lemma construct_post:
  assumes "w = 128" and "h = 32 \<or> h = 64" and "fault_free s"
  shows "\<exists>s1. SSD1309_SPI w h s = (None, s1) \<and> constructed s1 \<and> fault_free s1 \<and>
    events s1 = events s @
      [PinInit DC 0, PinInit RST 1, PinInit CS 1,
       PinValue RST 1, SleepMs 1, PinValue RST 0, SleepMs 10, PinValue RST 1, SleepMs 10] @
      concat (map cmd_frame (init_sequence h))"
  using construct_effect [OF assms(1,2) fault_free_ok [OF assms(3)]] assms
  by (auto simp: constructed_def is_byte_def list_all_iff intro: fault_free_drop)

lemma init_sequence_opcodes:
  "h = 32 \<or> h = 64 \<Longrightarrow> whole (init_sequence h) \<and> 0x8D \<notin> set (opcodes (init_sequence h))"
  by (auto simp: init_sequence_def param_count_def)

lemma power_up_fault_free: "fault_free power_up"
  by (simp add: power_up_def fault_free_def)

text \<open>
  C3. With a working bus, the command stream of construction followed by any sequence
  of \<^verbatim>\<open>show\<close>, \<^verbatim>\<open>contrast\<close>, \<^verbatim>\<open>invert\<close>, \<^verbatim>\<open>poweroff\<close> and \<^verbatim>\<open>poweron\<close>
  calls never has \<open>0x8D\<close> as an opcode, and every call returns normally.
\<close>

theorem no_charge_pump_opcode:
  assumes "w = 128" and "h = 32 \<or> h = 64" and "fault_free s"
  shows "fst (block (SSD1309_SPI w h # map run_call xs) s) = None \<and>
    0x8D \<notin> set (opcodes (cmd_stream (drop (length (events s))
      (events (snd (block (SSD1309_SPI w h # map run_call xs) s))))))"
proof -
  define pre where "pre = [PinInit DC 0, PinInit RST 1, PinInit CS 1,
       PinValue RST 1, SleepMs 1, PinValue RST 0, SleepMs 10, PinValue RST 1, SleepMs 10]"
  obtain s1 where 1: "SSD1309_SPI w h s = (None, s1)" "constructed s1" "fault_free s1"
      "events s1 = events s @ pre @ concat (map cmd_frame (init_sequence h))"
    using construct_post [OF assms] unfolding pre_def by blast
  obtain s2 es where 2: "block (map run_call xs) s1 = (None, s2)"
      "events s2 = events s1 @ es" "whole (cmd_stream es)"
      "0x8D \<notin> set (opcodes (cmd_stream es))"
    using calls_opcodes [OF 1(2,3)] by blast
  have run: "block (SSD1309_SPI w h # map run_call xs) s = (None, s2)"
    using 1(1) 2(1) by simp
  have "drop (length (events s)) (events s2) =
      pre @ concat (map cmd_frame (init_sequence h)) @ es"
    using 1(4) 2(2) by simp
  then have "cmd_stream (drop (length (events s)) (events s2)) =
      init_sequence h @ cmd_stream es"
    by (simp add: cmd_stream_append cmd_stream_frames pre_def)
  then have "0x8D \<notin> set (opcodes (cmd_stream (drop (length (events s)) (events s2))))"
    using init_sequence_opcodes [OF assms(2)] 2(4) by (simp add: opcodes_append)
  then show ?thesis
    using run by simp
qed

theorem no_charge_pump_opcode_witness:
  "fault_free power_up \<and>
   fst (block (SSD1309_SPI 128 64 # map run_call
          [Show, Contrast 141, Invert True, Poweroff, Poweron]) power_up) = None \<and>
   0x8D \<notin> set (opcodes (cmd_stream (events (snd (block (SSD1309_SPI 128 64 # map run_call
          [Show, Contrast 141, Invert True, Poweroff, Poweron]) power_up)))))"
proof -
  have e: "events power_up = []"
    by (simp add: power_up_def)
  show ?thesis
    using no_charge_pump_opcode [of 128 64 power_up
        "[Show, Contrast 141, Invert True, Poweroff, Poweron]"] power_up_fault_free
    by (simp add: e)
qed

text \<open>
  The byte \<open>0x8D\<close> itself can appear in the command stream, as the parameter of the
  contrast command: \<^verbatim>\<open>contrast(141)\<close> sends \<open>0x81\<close>, \<open>0x8D\<close>.
\<close>

lemma contrast_141_stream:
  "cmd_stream (events (snd (contrast 141 ready))) = [0x81, 0x8D] \<and>
   opcodes (cmd_stream (events (snd (contrast 141 ready)))) = [0x81]"
  using contrast_effect [OF ready_ok, of 141]
  by (simp add: ready_def cmd_frame_def param_count_def)

text \<open>
  C4. When \<open>width = 128\<close> and \<open>height\<close> is 32 or 64, construction on a working bus
  returns normally with a buffer of \<open>width * height / 8\<close> bytes. For every other pair
  it raises \<^verbatim>\<open>ValueError\<close> and leaves the whole state as it was: no pin is written,
  nothing goes over the bus.
\<close>

theorem geometry_contract:
  "(w = 128 \<and> (h = 32 \<or> h = 64) \<longrightarrow> transport_ok 26 s \<longrightarrow>
      fst (SSD1309_SPI w h s) = None \<and>
      int (length (buffer (snd (SSD1309_SPI w h s)))) = w * h div 8) \<and>
   (\<not> (w = 128 \<and> (h = 32 \<or> h = 64)) \<longrightarrow> SSD1309_SPI w h s = (Some ValueError, s))"
proof (rule conjI; intro impI)
  assume g: "w = 128 \<and> (h = 32 \<or> h = 64)" and t: "transport_ok 26 s"
  show "fst (SSD1309_SPI w h s) = None \<and>
      int (length (buffer (snd (SSD1309_SPI w h s)))) = w * h div 8"
    using construct_effect [OF _ _ t, of w h] g by auto
next
  assume "\<not> (w = 128 \<and> (h = 32 \<or> h = 64))"
  then show "SSD1309_SPI w h s = (Some ValueError, s)"
    by (auto simp: SSD1309_SPI_def)
qed

theorem geometry_contract_witness:
  "transport_ok 26 power_up \<and>
   fst (SSD1309_SPI 128 64 power_up) = None \<and>
   length (buffer (snd (SSD1309_SPI 128 64 power_up))) = 1024 \<and>
   fst (SSD1309_SPI 128 32 power_up) = None \<and>
   length (buffer (snd (SSD1309_SPI 128 32 power_up))) = 512 \<and>
   SSD1309_SPI 128 48 power_up = (Some ValueError, power_up) \<and>
   SSD1309_SPI 64 64 power_up = (Some ValueError, power_up)"
  using geometry_contract [of 128 64 power_up] geometry_contract [of 128 32 power_up]
    geometry_contract [of 128 48 power_up] geometry_contract [of 64 64 power_up]
    power_up_ok [of 26]
  by simp

text \<open>
  C5, as the code has it. A framed write, in command or in data mode, that returns
  normally leaves chip-select deselected (1). When building the byte string or the bus
  write raises, the exception goes to the caller and chip-select stays asserted (0):
  the statement that deselects is not reached. On a working bus a data write, and a
  command write of a byte, return normally.
\<close>

theorem framed_write_chip_select:
  "cs (snd (write_cmd c s)) = (if fst (write_cmd c s) = None then 1 else 0) \<and>
   cs (snd (write_data b s)) = (if fst (write_data b s) = None then 1 else 0) \<and>
   (transport_ok 1 s \<and> is_byte c \<longrightarrow> fst (write_cmd c s) = None) \<and>
   (transport_ok 1 s \<longrightarrow> fst (write_data b s) = None)"
  by (cases "spi_faults s")
    (auto simp: write_cmd_def write_data_def stmt_ok_def pin_value_def set_level_def log_def
      bytes_of_def spi_write_def transport_ok_def quiet_def)

theorem framed_write_chip_select_witness:
  "transport_ok 1 ready \<and> is_byte 0xAE \<and>
   fst (write_cmd 0xAE ready) = None \<and> cs (snd (write_cmd 0xAE ready)) = 1 \<and>
   fst (write_data [1, 2] ready) = None \<and> cs (snd (write_data [1, 2] ready)) = 1"
  using framed_write_chip_select [of "0xAE" ready "[1, 2]"] ready_ok [of 1]
  by (simp add: is_byte_def)

text \<open>
  C5 as stated fails: on a bus whose next write raises, \<^verbatim>\<open>write_cmd\<close> and
  \<^verbatim>\<open>write_data\<close> raise and leave chip-select at 0.
\<close>

theorem framed_write_chip_select_counterexample:
  "fst (write_cmd 0xAE bus_down) = Some TransportError \<and>
   cs (snd (write_cmd 0xAE bus_down)) \<noteq> 1 \<and>
   fst (write_data (buffer bus_down) bus_down) = Some TransportError \<and>
   cs (snd (write_data (buffer bus_down) bus_down)) \<noteq> 1"
  by (simp add: write_cmd_def write_data_def stmt_ok_def pin_value_def set_level_def log_def
      bytes_of_def is_byte_def spi_write_def bus_down_def)

text \<open>
  C6. For every integer \<open>level\<close>, \<^verbatim>\<open>contrast(level)\<close> on a bus that works for the
  writes sends exactly two command bytes, \<open>0x81\<close> and then \<open>max 0 (min 255 level)\<close>. On
  any bus it does not change the pixel buffer.
\<close>

theorem contrast_clamped:
  "(transport_ok 2 s \<longrightarrow>
      fst (contrast level s) = None \<and>
      events (snd (contrast level s)) = events s @
        [PinValue CS 0, PinValue DC 0, SpiWrite 0 0 [0x81], PinValue CS 1,
         PinValue CS 0, PinValue DC 0, SpiWrite 0 0 [max 0 (min 255 level)], PinValue CS 1]) \<and>
   buffer (snd (contrast level s)) = buffer s"
proof (rule conjI; (intro impI)?)
  assume t: "transport_ok 2 s"
  show "fst (contrast level s) = None \<and>
      events (snd (contrast level s)) = events s @
        [PinValue CS 0, PinValue DC 0, SpiWrite 0 0 [0x81], PinValue CS 1,
         PinValue CS 0, PinValue DC 0, SpiWrite 0 0 [max 0 (min 255 level)], PinValue CS 1]"
    using contrast_effect [OF t, of level] by (simp add: cmd_frame_def)
next
  show "buffer (snd (contrast level s)) = buffer s"
    using contrast_attrs [of level s] by (simp add: attrs_def)
qed

theorem contrast_clamped_witness:
  "transport_ok 2 ready \<and>
   cmd_stream (events (snd (contrast (- 5) ready))) = [0x81, 0x00] \<and>
   cmd_stream (events (snd (contrast 300 ready))) = [0x81, 0xFF] \<and>
   cmd_stream (events (snd (contrast 128 ready))) = [0x81, 0x80] \<and>
   buffer (snd (contrast 300 ready)) = buffer ready"
proof -
  have e: "events ready = []"
    by (simp add: ready_def)
  show ?thesis
    using contrast_clamped [of ready "- 5"] contrast_clamped [of ready 300]
      contrast_clamped [of ready 128] ready_ok [of 2]
    by (simp add: e)
qed

text \<open>
  C7. On construction with a supported geometry, the trace begins with the set-up of the
  three pins (reset line high), then the reset line is driven high and a delay of 1 ms is
  requested, driven low with a delay of 10 ms, driven high with a delay of 10 ms, and
  only then the first command byte, \<open>0xFD\<close>, goes over the bus.
\<close>

theorem reset_line_trace:
  assumes "w = 128" and "h = 32 \<or> h = 64" and "transport_ok 26 s"
  shows "take 12 (drop (length (events s)) (events (snd (SSD1309_SPI w h s)))) =
      [PinInit DC 0, PinInit RST 1, PinInit CS 1,
       PinValue RST 1, SleepMs 1, PinValue RST 0, SleepMs 10, PinValue RST 1, SleepMs 10,
       PinValue CS 0, PinValue DC 0, SpiWrite 0 0 [0xFD]]"
  using construct_effect [OF assms] by (simp add: init_sequence_def cmd_frame_def)

theorem reset_line_trace_witness:
  "transport_ok 26 power_up \<and>
   take 12 (events (snd (SSD1309_SPI 128 64 power_up))) =
      [PinInit DC 0, PinInit RST 1, PinInit CS 1,
       PinValue RST 1, SleepMs 1, PinValue RST 0, SleepMs 10, PinValue RST 1, SleepMs 10,
       PinValue CS 0, PinValue DC 0, SpiWrite 0 0 [0xFD]]"
proof -
  have e: "events power_up = []"
    by (simp add: power_up_def)
  show ?thesis
    using reset_line_trace [of 128 64 power_up] power_up_ok [of 26]
    by (simp add: e)
qed

lemma invert_attrs: "attrs (snd (invert flag s)) = attrs s"
  by (simp add: invert_def write_cmd_attrs)

lemma pair_attrs:
  assumes "\<And>s. attrs (snd (f s)) = attrs s" and "\<And>s. attrs (snd (g s)) = attrs s"
  shows "attrs (snd (block [f, g] s)) = attrs s"
  by (rule block_attrs) (use assms in auto)

lemma two_commands:
  assumes "is_byte a" and "is_byte b" and "transport_ok 2 s"
  shows "write_cmd a s = (None, s\<lparr>dc := 0, cs := 1, spi_faults := drop 1 (spi_faults s),
      events := events s @ cmd_frame a\<rparr>)"
    and "block [write_cmd a, write_cmd b] s = (None, s\<lparr>dc := 0, cs := 1,
      spi_faults := drop 2 (spi_faults s),
      events := events s @ cmd_frame a @ cmd_frame b\<rparr>)"
proof -
  have q: "\<And>k. k < 2 \<Longrightarrow> quiet (Suc 0) (drop k (spi_faults s))"
    using assms(3) quiet_drop unfolding transport_ok_def by blast
  have q0: "quiet (Suc 0) (spi_faults s)"
    using q [of 0] by simp
  show "write_cmd a s = (None, s\<lparr>dc := 0, cs := 1, spi_faults := drop 1 (spi_faults s),
      events := events s @ cmd_frame a\<rparr>)"
    using assms(1) q0 by (simp add: write_cmd_step cmd_frame_def)
  show "block [write_cmd a, write_cmd b] s = (None, s\<lparr>dc := 0, cs := 1,
      spi_faults := drop 2 (spi_faults s),
      events := events s @ cmd_frame a @ cmd_frame b\<rparr>)"
    using assms(1,2)
    apply (simp add: write_cmd_step q q0 cmd_frame_def)
    apply (simp add: eval_nat_numeral)
    done
qed

text \<open>
  C8. On a bus that works for the writes, \<^verbatim>\<open>invert(True)\<close> sends exactly the byte \<open>0xA7\<close> and
  \<^verbatim>\<open>invert(False)\<close> exactly the byte \<open>0xA6\<close>, each as one command-mode write. On any bus,
  neither changes the pixel buffer, and after \<^verbatim>\<open>invert(True)\<close> followed by
  \<^verbatim>\<open>invert(False)\<close> the buffer is what it was.
\<close>

theorem invert_opcodes:
  "(transport_ok 2 s \<longrightarrow>
      fst (invert True s) = None \<and>
      events (snd (invert True s)) = events s @
        [PinValue CS 0, PinValue DC 0, SpiWrite 0 0 [0xA7], PinValue CS 1] \<and>
      fst (invert False s) = None \<and>
      events (snd (invert False s)) = events s @
        [PinValue CS 0, PinValue DC 0, SpiWrite 0 0 [0xA6], PinValue CS 1] \<and>
      fst (block [invert True, invert False] s) = None \<and>
      events (snd (block [invert True, invert False] s)) = events s @
        [PinValue CS 0, PinValue DC 0, SpiWrite 0 0 [0xA7], PinValue CS 1,
         PinValue CS 0, PinValue DC 0, SpiWrite 0 0 [0xA6], PinValue CS 1]) \<and>
   buffer (snd (invert flag s)) = buffer s \<and>
   buffer (snd (block [invert True, invert False] s)) = buffer s"
proof (intro conjI impI)
  assume t: "transport_ok 2 s"
  have b: "is_byte 0xA7" "is_byte 0xA6"
    by (simp_all add: is_byte_def)
  have i: "invert True = write_cmd 0xA7" "invert False = write_cmd 0xA6"
    by (simp_all add: invert_def fun_eq_iff)
  note e = two_commands [OF b t] two_commands(1) [OF b(2) b(1) t]
  show "fst (invert True s) = None" "fst (invert False s) = None"
    "fst (block [invert True, invert False] s) = None"
    unfolding i using e by simp_all
  show "events (snd (invert True s)) = events s @
        [PinValue CS 0, PinValue DC 0, SpiWrite 0 0 [0xA7], PinValue CS 1]"
    "events (snd (invert False s)) = events s @
        [PinValue CS 0, PinValue DC 0, SpiWrite 0 0 [0xA6], PinValue CS 1]"
    "events (snd (block [invert True, invert False] s)) = events s @
        [PinValue CS 0, PinValue DC 0, SpiWrite 0 0 [0xA7], PinValue CS 1,
         PinValue CS 0, PinValue DC 0, SpiWrite 0 0 [0xA6], PinValue CS 1]"
    unfolding i using e by (simp_all add: cmd_frame_def)
next
  show "buffer (snd (invert flag s)) = buffer s"
    using invert_attrs [of flag s] by (simp add: attrs_def)
  show "buffer (snd (block [invert True, invert False] s)) = buffer s"
    using pair_attrs [of "invert True" "invert False" s, OF invert_attrs invert_attrs]
    by (simp add: attrs_def)
qed

theorem invert_opcodes_witness:
  "transport_ok 2 ready \<and>
   cmd_stream (events (snd (invert True ready))) = [0xA7] \<and>
   cmd_stream (events (snd (invert False ready))) = [0xA6] \<and>
   buffer (snd (block [invert True, invert False] ready)) = replicate 512 0xFF"
proof -
  have e: "events ready = []" "buffer ready = replicate 512 0xFF"
    by (simp_all add: ready_def)
  show ?thesis
    using invert_opcodes [of ready True] ready_ok [of 2]
    by (simp add: e)
qed

text \<open>
  C9. On a bus that works for the writes, \<^verbatim>\<open>poweroff()\<close> sends exactly the byte \<open>0xAE\<close> and
  \<^verbatim>\<open>poweron()\<close> exactly the byte \<open>0xAF\<close>, each as one command-mode write. On any bus,
  neither changes the pixel buffer, and after \<^verbatim>\<open>poweroff()\<close> followed by
  \<^verbatim>\<open>poweron()\<close> the buffer is what it was.
\<close>

theorem power_opcodes:
  "(transport_ok 2 s \<longrightarrow>
      fst (poweroff s) = None \<and>
      events (snd (poweroff s)) = events s @
        [PinValue CS 0, PinValue DC 0, SpiWrite 0 0 [0xAE], PinValue CS 1] \<and>
      fst (poweron s) = None \<and>
      events (snd (poweron s)) = events s @
        [PinValue CS 0, PinValue DC 0, SpiWrite 0 0 [0xAF], PinValue CS 1] \<and>
      fst (block [poweroff, poweron] s) = None \<and>
      events (snd (block [poweroff, poweron] s)) = events s @
        [PinValue CS 0, PinValue DC 0, SpiWrite 0 0 [0xAE], PinValue CS 1,
         PinValue CS 0, PinValue DC 0, SpiWrite 0 0 [0xAF], PinValue CS 1]) \<and>
   buffer (snd (poweroff s)) = buffer s \<and>
   buffer (snd (poweron s)) = buffer s \<and>
   buffer (snd (block [poweroff, poweron] s)) = buffer s"
proof (intro conjI impI)
  assume t: "transport_ok 2 s"
  have b: "is_byte 0xAE" "is_byte 0xAF"
    by (simp_all add: is_byte_def)
  note e = two_commands [OF b t] two_commands(1) [OF b(2) b(1) t]
  show "fst (poweroff s) = None" "fst (poweron s) = None"
    "fst (block [poweroff, poweron] s) = None"
    unfolding poweroff_def poweron_def using e by simp_all
  show "events (snd (poweroff s)) = events s @
        [PinValue CS 0, PinValue DC 0, SpiWrite 0 0 [0xAE], PinValue CS 1]"
    "events (snd (poweron s)) = events s @
        [PinValue CS 0, PinValue DC 0, SpiWrite 0 0 [0xAF], PinValue CS 1]"
    "events (snd (block [poweroff, poweron] s)) = events s @
        [PinValue CS 0, PinValue DC 0, SpiWrite 0 0 [0xAE], PinValue CS 1,
         PinValue CS 0, PinValue DC 0, SpiWrite 0 0 [0xAF], PinValue CS 1]"
    unfolding poweroff_def poweron_def using e by (simp_all add: cmd_frame_def)
next
  have a: "\<And>s. attrs (snd (poweroff s)) = attrs s" "\<And>s. attrs (snd (poweron s)) = attrs s"
    by (simp_all add: poweroff_def poweron_def write_cmd_attrs)
  show "buffer (snd (poweroff s)) = buffer s" "buffer (snd (poweron s)) = buffer s"
    using a [of s] by (simp_all add: attrs_def)
  show "buffer (snd (block [poweroff, poweron] s)) = buffer s"
    using pair_attrs [of poweroff poweron s, OF a] by (simp add: attrs_def)
qed

theorem power_opcodes_witness:
  "transport_ok 2 ready \<and>
   cmd_stream (events (snd (poweroff ready))) = [0xAE] \<and>
   cmd_stream (events (snd (poweron ready))) = [0xAF] \<and>
   buffer (snd (block [poweroff, poweron] ready)) = replicate 512 0xFF"
proof -
  have e: "events ready = []" "buffer ready = replicate 512 0xFF"
    by (simp_all add: ready_def)
  show ?thesis
    using power_opcodes [of ready] ready_ok [of 2]
    by (simp add: e)
qed

text \<open>
  C10. \<^verbatim>\<open>show\<close> changes nothing of the display object: after any call, whether it
  returns or raises and whatever the state before, the pixel buffer, \<open>width\<close>,
  \<open>height\<close> and \<open>pages\<close> are what they were.
\<close>

theorem show_keeps_object:
  "buffer (snd (show s)) = buffer s \<and> width (snd (show s)) = width s \<and>
   height (snd (show s)) = height s \<and> pages (snd (show s)) = pages s"
  using show_attrs [of s] by (simp add: attrs_def)

theorem show_keeps_object_witness:
  "buffer (snd (show ready)) = replicate 512 0xFF \<and> width (snd (show ready)) = 128 \<and>
   height (snd (show ready)) = 32 \<and> pages (snd (show ready)) = 4 \<and>
   buffer (snd (show bus_down)) = replicate 512 0xFF \<and> fst (show bus_down) \<noteq> None"
proof -
  have "fst (show bus_down) = Some TransportError"
    by (simp add: show_def write_cmd_def stmt_ok_def pin_value_def set_level_def log_def
        bytes_of_def is_byte_def spi_write_def bus_down_def)
  then show ?thesis
    using show_keeps_object [of ready] show_keeps_object [of bus_down]
    by (simp add: ready_def bus_down_def)
qed

end
